theory Spec2Isabelle
  imports Main "HOL-Library.Multiset" "HOL-Library.Sublist"
begin

section \<open>Data model (src/types.ts)\<close>

text \<open>
  The values a \<^verbatim>\<open>season\<close> field can hold. It is written only with
  \<^verbatim>\<open>parseInt(..) || 1\<close>: \<^verbatim>\<open>parseInt\<close> returns an IEEE double that is never a
  fraction, and \<^verbatim>\<open>|| 1\<close> replaces \<^verbatim>\<open>NaN\<close>, so the field holds an integer-valued
  double or one of the two infinities. \<open>Finite i\<close> stands for the double of value
  \<open>i\<close>; the order is the numeric one.
\<close>

datatype jsNumber = NegInfinity | Finite int | Infinity

instantiation jsNumber :: linorder
begin

fun less_eq_jsNumber :: "jsNumber \<Rightarrow> jsNumber \<Rightarrow> bool" where
  "less_eq_jsNumber NegInfinity b = True"
| "less_eq_jsNumber (Finite a) NegInfinity = False"
| "less_eq_jsNumber (Finite a) (Finite b) = (a \<le> b)"
| "less_eq_jsNumber (Finite a) Infinity = True"
| "less_eq_jsNumber Infinity NegInfinity = False"
| "less_eq_jsNumber Infinity (Finite b) = False"
| "less_eq_jsNumber Infinity Infinity = True"

definition less_jsNumber :: "jsNumber \<Rightarrow> jsNumber \<Rightarrow> bool" where
  "less_jsNumber a b = (a \<le> b \<and> \<not> b \<le> a)"

instance
proof
  fix x y z :: jsNumber
  show "(x < y) = (x \<le> y \<and> \<not> y \<le> x)" by (simp add: less_jsNumber_def)
  show "x \<le> x" by (cases x) simp_all
  show "x \<le> y \<Longrightarrow> y \<le> z \<Longrightarrow> x \<le> z" by (cases x; cases y; cases z) simp_all
  show "x \<le> y \<Longrightarrow> y \<le> x \<Longrightarrow> x = y" by (cases x; cases y) simp_all
  show "x \<le> y \<or> y \<le> x" by (cases x; cases y) auto
qed

end

text \<open>
  The \<^verbatim>\<open>Episode\<close> interface. \<^verbatim>\<open>number\<close> is written only with \<^verbatim>\<open>length + 1\<close>, an
  integer far below \<open>2^53\<close>, so it is an \<^typ>\<open>int\<close>. Strings are lists of code units
  below 256. Field names that occur in several interfaces carry a suffix.
\<close>

record Episode =
  id_ep :: string
  number :: int
  season :: jsNumber
  title_ep :: string
  duration :: string
  telegramCode_ep :: string

section \<open>Component state (AdminPanel, lines 15-46)\<close>

text \<open>
  The \<^verbatim>\<open>useState\<close> cells read or written by the form, the episode editor and
  \<^verbatim>\<open>handlePublish\<close>. The login, settings and movie-list cells are touched by none of
  the functions below and are left out.
\<close>

record AdminPanel =
  activeTab :: string
  loading :: bool
  isEditing :: bool
  editId :: "string option"
  title :: string
  category :: string
  thumbnail :: string
  telegramCode :: string
  year :: string
  rating :: string
  quality :: string
  description :: string
  episodes :: "Episode list"
  newEpTitle :: string
  newEpSeason :: string
  newEpDuration :: string
  newEpCode :: string

definition initialState :: AdminPanel where
  "initialState =
     \<lparr> activeTab = ''upload'', loading = False, isEditing = False, editId = None,
       title = '''', category = ''Exclusive'', thumbnail = '''', telegramCode = '''',
       year = ''2024'', rating = ''9.0'', quality = ''4K HDR'', description = '''',
       episodes = [], newEpTitle = '''', newEpSeason = ''1'', newEpDuration = '''',
       newEpCode = '''' \<rparr>"

definition resetForm :: "AdminPanel \<Rightarrow> AdminPanel" where
  "resetForm st =
     st\<lparr> title := '''', category := ''Exclusive'', thumbnail := '''',
         telegramCode := '''', year := ''2024'', rating := ''9.0'',
         quality := ''4K HDR'', description := '''', episodes := [],
         newEpSeason := ''1'', isEditing := False, editId := None \<rparr>"

section \<open>JavaScript built-ins used by the episode editor\<close>

subsection \<open>Integers as Number values\<close>

text \<open>
  The Number for a mathematical integer: the nearest double, ties to even, and an
  infinity once the rounded magnitude reaches \<open>2^1024\<close>. For a magnitude \<open>m\<close>,
  \<open>findExp m\<close> is the number of low bits that do not fit into the 53-bit
  significand; integers below \<open>2^53\<close> are kept as they are.
\<close>

function findExp :: "int \<Rightarrow> nat" where
  "findExp m = (if m < 2 ^ 53 then 0 else Suc (findExp (m div 2)))"
  by pat_completeness auto
termination
  by (relation "measure nat") auto

declare findExp.simps [simp del]

definition roundTiesToEven :: "int \<Rightarrow> jsNumber" where
  "roundTiesToEven m =
     (let e = findExp m;
          q = m div 2 ^ e;
          r = m mod 2 ^ e;
          q' = (if 2 * r > 2 ^ e \<or> (2 * r = 2 ^ e \<and> odd q) then q + 1 else q);
          v = q' * 2 ^ e
      in if v \<ge> 2 ^ 1024 then Infinity else Finite v)"

fun negate :: "jsNumber \<Rightarrow> jsNumber" where
  "negate NegInfinity = Infinity"
| "negate (Finite v) = Finite (- v)"
| "negate Infinity = NegInfinity"

definition toNumber :: "int \<Rightarrow> jsNumber" where
  "toNumber i = (if i < 0 then negate (roundTiesToEven (- i)) else roundTiesToEven i)"

text \<open>
  The subtraction \<^verbatim>\<open>a - b\<close> of two such values; \<^const>\<open>None\<close> is \<^verbatim>\<open>NaN\<close>, the
  difference of two equal infinities.
\<close>

fun numSub :: "jsNumber \<Rightarrow> jsNumber \<Rightarrow> jsNumber option" where
  "numSub (Finite a) (Finite b) = Some (toNumber (a - b))"
| "numSub (Finite a) Infinity = Some NegInfinity"
| "numSub (Finite a) NegInfinity = Some Infinity"
| "numSub Infinity Infinity = None"
| "numSub Infinity (Finite b) = Some Infinity"
| "numSub Infinity NegInfinity = Some Infinity"
| "numSub NegInfinity NegInfinity = None"
| "numSub NegInfinity (Finite b) = Some NegInfinity"
| "numSub NegInfinity Infinity = Some NegInfinity"

subsection \<open>parseInt with no radix argument\<close>

text \<open>
  ECMAScript \<^verbatim>\<open>parseInt(s)\<close>: leading white space is skipped, one sign is read, a
  \<^verbatim>\<open>0x\<close>/\<^verbatim>\<open>0X\<close> prefix selects radix 16 (radix 10 otherwise), the longest prefix of
  digits of that radix is the numeral, and no digit at all gives \<^verbatim>\<open>NaN\<close> (here
  \<^const>\<open>None\<close>). The result is the Number for the signed value of the numeral.
  (The standard lets an engine approximate a decimal numeral of more than 20
  significant digits; the model rounds the exact value, as the common engines do.)
\<close>

definition isWhiteSpace :: "char \<Rightarrow> bool" where
  "isWhiteSpace c = (of_char c \<in> {9, 10, 11, 12, 13, 32, 160 :: nat})"

definition digitValue :: "char \<Rightarrow> nat option" where
  "digitValue c =
     (let n = (of_char c :: nat) in
      if 48 \<le> n \<and> n \<le> 57 then Some (n - 48)
      else if 97 \<le> n \<and> n \<le> 122 then Some (n - 87)
      else if 65 \<le> n \<and> n \<le> 90 then Some (n - 55)
      else None)"

definition isDigitOf :: "nat \<Rightarrow> char \<Rightarrow> bool" where
  "isDigitOf R c = (case digitValue c of None \<Rightarrow> False | Some d \<Rightarrow> d < R)"

definition numeralValue :: "nat \<Rightarrow> string \<Rightarrow> nat" where
  "numeralValue R z = foldl (\<lambda>acc c. acc * R + (case digitValue c of None \<Rightarrow> 0 | Some d \<Rightarrow> d)) 0 z"

definition parseDigits :: "nat \<Rightarrow> string \<Rightarrow> nat option" where
  "parseDigits R s =
     (let z = takeWhile (isDigitOf R) s in
      if z = [] then None else Some (numeralValue R z))"

fun stripPrefix :: "string \<Rightarrow> nat \<times> string" where
  "stripPrefix (a # b # rest) =
     (if a = CHR ''0'' \<and> (b = CHR ''x'' \<or> b = CHR ''X'') then (16, rest)
      else (10, a # b # rest))"
| "stripPrefix s = (10, s)"

fun readSign :: "string \<Rightarrow> int \<times> string" where
  "readSign (c # rest) =
     (if c = CHR ''-'' then (-1, rest)
      else if c = CHR ''+'' then (1, rest)
      else (1, c # rest))"
| "readSign [] = (1, [])"

definition parseInt :: "string \<Rightarrow> jsNumber option" where
  "parseInt inputString =
     (let (sign, s1) = readSign (dropWhile isWhiteSpace inputString);
          (R, s2) = stripPrefix s1
      in map_option (\<lambda>m. toNumber (sign * int m)) (parseDigits R s2))"

subsection \<open>Number.prototype.toString on a timestamp\<close>

fun toString :: "nat \<Rightarrow> string" where
  "toString n =
     (if n < 10 then [char_of (48 + n)]
      else toString (n div 10) @ [char_of (48 + n mod 10)])"

declare toString.simps [simp del]

subsection \<open>Array.prototype.sort with a comparator\<close>

text \<open>
  \<^verbatim>\<open>sort\<close> is stable and orders \<open>a\<close> before \<open>b\<close> when the comparator is negative; a
  comparator result \<^verbatim>\<open>NaN\<close> counts as zero. The model is the stable insertion sort:
  an element is put in front of the first later element it does not exceed.
\<close>

fun notPositive :: "jsNumber option \<Rightarrow> bool" where
  "notPositive None = True"
| "notPositive (Some v) = (v \<le> Finite 0)"

fun insertBy :: "('a \<Rightarrow> 'a \<Rightarrow> jsNumber option) \<Rightarrow> 'a \<Rightarrow> 'a list \<Rightarrow> 'a list" where
  "insertBy cmp x [] = [x]"
| "insertBy cmp x (y # ys) =
     (if notPositive (cmp x y) then x # y # ys else y # insertBy cmp x ys)"

fun sortBy :: "('a \<Rightarrow> 'a \<Rightarrow> jsNumber option) \<Rightarrow> 'a list \<Rightarrow> 'a list" where
  "sortBy cmp [] = []"
| "sortBy cmp (x # xs) = insertBy cmp x (sortBy cmp xs)"

section \<open>Episode editor (lines 128-155)\<close>

text \<open>The comparator passed to \<^verbatim>\<open>sort\<close> at lines 142-145.\<close>

definition compareEpisodes :: "Episode \<Rightarrow> Episode \<Rightarrow> jsNumber option" where
  "compareEpisodes a b =
     (if season a \<noteq> season b then numSub (season a) (season b)
      else numSub (Finite (number a)) (Finite (number b)))"

text \<open>\<^verbatim>\<open>parseInt(newEpSeason) || 1\<close>: \<^verbatim>\<open>NaN\<close> and \<open>0\<close> are falsy.\<close>

definition seasonNum :: "string \<Rightarrow> jsNumber" where
  "seasonNum s =
     (case parseInt s of None \<Rightarrow> Finite 1 | Some v \<Rightarrow> if v = Finite 0 then Finite 1 else v)"

text \<open>
  The object literal \<^verbatim>\<open>newEp\<close> (lines 132-139); \<open>now\<close> is the value of
  \<^verbatim>\<open>Date.now()\<close>.
\<close>

definition newEp :: "nat \<Rightarrow> AdminPanel \<Rightarrow> Episode" where
  "newEp now st =
     \<lparr> id_ep = toString now,
       number = int (length (filter (\<lambda>e. season e = seasonNum (newEpSeason st)) (episodes st))) + 1,
       season = seasonNum (newEpSeason st),
       title_ep = newEpTitle st,
       duration = (if newEpDuration st = [] then ''N/A'' else newEpDuration st),
       telegramCode_ep = newEpCode st \<rparr>"

definition handleAddEpisode :: "nat \<Rightarrow> AdminPanel \<Rightarrow> AdminPanel" where
  "handleAddEpisode now st =
     (if newEpTitle st = [] \<or> newEpCode st = [] then st
      else st\<lparr> episodes := sortBy compareEpisodes (episodes st @ [newEp now st]),
               newEpTitle := '''', newEpDuration := '''', newEpCode := '''' \<rparr>)"

definition removeEpisode :: "string \<Rightarrow> AdminPanel \<Rightarrow> AdminPanel" where
  "removeEpisode i st = st\<lparr> episodes := filter (\<lambda>ep. id_ep ep \<noteq> i) (episodes st) \<rparr>"

text \<open>
  What the operator does to the episode editor: typing into the four inputs (the
  \<^verbatim>\<open>onChange\<close> handlers at lines 438-442) and pressing the add button (line 443) at
  clock value \<open>now\<close>, or pressing the remove button of a listed episode (line 457).
\<close>

datatype action =
  Add (addSeason: string) (addTitle: string) (addDuration: string) (addCode: string) (addNow: nat)
  | Remove string

fun perform :: "AdminPanel \<Rightarrow> action \<Rightarrow> AdminPanel" where
  "perform st (Add s t d c now) =
     handleAddEpisode now
       (st\<lparr> newEpSeason := s, newEpTitle := t, newEpDuration := d, newEpCode := c \<rparr>)"
| "perform st (Remove i) = removeEpisode i st"

definition performAll :: "AdminPanel \<Rightarrow> action list \<Rightarrow> AdminPanel" where
  "performAll st acts = foldl perform st acts"

fun isAdd :: "action \<Rightarrow> bool" where
  "isAdd (Add s t d c now) = True"
| "isAdd (Remove i) = False"

text \<open>Ascending order on (season, number), season first.\<close>

definition seasonNumberLe :: "Episode \<Rightarrow> Episode \<Rightarrow> bool" where
  "seasonNumberLe a b =
     (season a < season b \<or> (season a = season b \<and> number a \<le> number b))"

section \<open>Publishing (lines 174-214)\<close>

text \<open>
  The document handed to Firestore. \<^verbatim>\<open>serverTimestamp()\<close> is a sentinel value;
  \<^verbatim>\<open>null\<close> in the \<^verbatim>\<open>episodes\<close> field is \<^const>\<open>None\<close>. \<^verbatim>\<open>parseFloat\<close> yields a
  floating-point number, which is not modelled: the function is a parameter and its
  result type \<open>'f\<close> is left open.
\<close>

datatype fieldValue = ServerTimestamp

record 'f MovieData =
  title_md :: string
  category_md :: string
  thumbnail_md :: string
  telegramCode_md :: string
  year_md :: string
  rating_md :: 'f
  quality_md :: string
  description_md :: string
  episodes_md :: "Episode list option"
  updatedAt :: fieldValue

record 'f NewMovie = "'f MovieData" +
  views :: string
  createdAt :: fieldValue

definition movieData :: "(string \<Rightarrow> 'f) \<Rightarrow> AdminPanel \<Rightarrow> 'f MovieData" where
  "movieData parseFloat st =
     \<lparr> title_md = title st, category_md = category st, thumbnail_md = thumbnail st,
       telegramCode_md = telegramCode st, year_md = year st,
       rating_md = parseFloat (rating st), quality_md = quality st,
       description_md = description st,
       episodes_md = (if length (episodes st) > 0 then Some (episodes st) else None),
       updatedAt = ServerTimestamp \<rparr>"

text \<open>
  What \<^verbatim>\<open>handlePublish\<close> does besides updating the state, in order. The awaited
  Firestore call either resolves or rejects; which one is an input of the model.
\<close>

datatype 'f effect =
  Alert string
  | UpdateDoc string "'f MovieData"
  | AddDoc "'f NewMovie"
  | FetchMovies
  | ConsoleError

datatype outcome = Resolves | Rejects

text \<open>\<^verbatim>\<open>isEditing && editId\<close>: \<^verbatim>\<open>null\<close> and the empty string are falsy.\<close>

definition editTarget :: "AdminPanel \<Rightarrow> string option" where
  "editTarget st =
     (if isEditing st
      then (case editId st of None \<Rightarrow> None | Some i \<Rightarrow> if i = [] then None else Some i)
      else None)"

definition handlePublish ::
  "(string \<Rightarrow> 'f) \<Rightarrow> outcome \<Rightarrow> AdminPanel \<Rightarrow> 'f effect list \<times> AdminPanel" where
  "handlePublish parseFloat gw st =
     (if title st = [] \<or> thumbnail st = [] \<or> (telegramCode st = [] \<and> length (episodes st) = 0)
      then ([Alert ''Title, Thumbnail and at least one Link (Code or Episode) are required''], st)
      else
        let st1 = st\<lparr> loading := True \<rparr>;
            md = movieData parseFloat st
        in case editTarget st of
             Some i \<Rightarrow>
               (case gw of
                  Resolves \<Rightarrow>
                    ([UpdateDoc i md, Alert ''Content Updated Successfully!'']
                       @ (if activeTab st = ''content'' then [FetchMovies] else []),
                     (resetForm st1)\<lparr> loading := False \<rparr>)
                | Rejects \<Rightarrow>
                    ([UpdateDoc i md, ConsoleError, Alert ''Error saving document''],
                     st1\<lparr> loading := False \<rparr>))
           | None \<Rightarrow>
               (case gw of
                  Resolves \<Rightarrow>
                    ([AddDoc (MovieData.extend md (NewMovie.fields ''0'' ServerTimestamp)),
                      Alert ''Content Added Successfully!'']
                       @ (if activeTab st = ''content'' then [FetchMovies] else []),
                     (resetForm st1)\<lparr> loading := False \<rparr>)
                | Rejects \<Rightarrow>
                    ([AddDoc (MovieData.extend md (NewMovie.fields ''0'' ServerTimestamp)),
                      ConsoleError, Alert ''Error saving document''],
                     st1\<lparr> loading := False \<rparr>)))"

text \<open>The \<^verbatim>\<open>episodes\<close> field of a document written by an effect, if it writes one.\<close>

fun writtenEpisodes :: "'f effect \<Rightarrow> Episode list option option" where
  "writtenEpisodes (UpdateDoc i d) = Some (episodes_md d)"
| "writtenEpisodes (AddDoc d) = Some (episodes_md d)"
| "writtenEpisodes (Alert m) = None"
| "writtenEpisodes FetchMovies = None"
| "writtenEpisodes ConsoleError = None"

text \<open>The sort key of an episode.\<close>

definition seasonNumber :: "Episode \<Rightarrow> jsNumber \<times> int" where
  "seasonNumber e = (season e, number e)"

section \<open>Number values\<close>

lemma less_Finite: "(Finite a < Finite b) = (a < b)"
  by (auto simp: less_jsNumber_def)

lemma findExp_pow_le: "0 < m \<Longrightarrow> 2 ^ findExp m \<le> m"
proof (induction m rule: findExp.induct)
  case (1 m)
  show ?case
  proof (cases "m < 2 ^ 53")
    case True
    with 1 show ?thesis by (simp add: findExp.simps [of m])
  next
    case False
    then have "0 < m div 2" by simp
    with 1 False have "2 ^ findExp (m div 2) \<le> m div 2" by simp
    then have "2 * 2 ^ findExp (m div 2) \<le> m" by simp
    with False show ?thesis by (simp add: findExp.simps [of m])
  qed
qed

lemma roundTiesToEven_small: "m < 2 ^ 53 \<Longrightarrow> roundTiesToEven m = Finite m"
proof -
  assume m: "m < 2 ^ 53"
  have "(2::int) ^ 53 \<le> 2 ^ 1024" by (rule power_increasing) simp_all
  with m have "\<not> 2 ^ 1024 \<le> m" by linarith
  with m show ?thesis by (simp add: roundTiesToEven_def findExp.simps [of m])
qed

lemma roundTiesToEven_pos:
  assumes "0 < m"
  shows "Finite 0 < roundTiesToEven m"
proof -
  let ?e = "findExp m"
  let ?q = "m div 2 ^ ?e"
  have "2 ^ ?e \<le> m" using assms by (rule findExp_pow_le)
  then have q: "0 < ?q" by (simp add: pos_imp_zdiv_pos_iff)
  have "0 < (?q + 1) * 2 ^ ?e" "0 < ?q * 2 ^ ?e" using q by simp_all
  then show ?thesis
    by (auto simp: roundTiesToEven_def Let_def less_jsNumber_def)
qed

lemma toNumber_notPositive: "(toNumber i \<le> Finite 0) = (i \<le> 0)"
proof (cases "i < 0")
  case True
  then have "Finite 0 < roundTiesToEven (- i)" by (intro roundTiesToEven_pos) simp
  then have "negate (roundTiesToEven (- i)) \<le> Finite 0"
    by (cases "roundTiesToEven (- i)") (auto simp: less_jsNumber_def)
  with True show ?thesis by (simp add: toNumber_def)
next
  case False
  show ?thesis
  proof (cases "i = 0")
    case True
    then show ?thesis by (simp add: toNumber_def roundTiesToEven_small)
  next
    case nz: False
    with False have "Finite 0 < roundTiesToEven i" by (intro roundTiesToEven_pos) simp
    with False nz show ?thesis by (auto simp: toNumber_def less_jsNumber_def)
  qed
qed

lemma toNumber_exact: "\<bar>i\<bar> < 2 ^ 53 \<Longrightarrow> toNumber i = Finite i"
  by (auto simp: toNumber_def roundTiesToEven_small)

lemma notPositive_numSub:
  "x \<noteq> y \<Longrightarrow> notPositive (numSub x y) = (x < y)"
  by (cases x; cases y) (auto simp: toNumber_notPositive less_jsNumber_def)

text \<open>Beyond \<open>2^53\<close> the significand is full, and from \<open>2^1024\<close> on the value is infinite.\<close>

lemma findExp_div_less: "m div 2 ^ findExp m < 2 ^ 53"
proof (induction m rule: findExp.induct)
  case (1 m)
  show ?case
  proof (cases "m < 2 ^ 53")
    case True
    then show ?thesis by (simp add: findExp.simps [of m])
  next
    case False
    with 1 have "m div 2 div 2 ^ findExp (m div 2) < 2 ^ 53" by simp
    moreover have "m div (2 * 2 ^ findExp (m div 2)) = m div 2 div 2 ^ findExp (m div 2)"
      by (rule zdiv_zmult2_eq) simp
    ultimately show ?thesis using False by (simp add: findExp.simps [of m])
  qed
qed

lemma findExp_div_ge: "2 ^ 53 \<le> m \<Longrightarrow> 2 ^ 52 \<le> m div 2 ^ findExp m"
proof (induction m rule: findExp.induct)
  case (1 m)
  from "1.prems" have big: "\<not> m < 2 ^ 53" by simp
  have split: "m div (2 * 2 ^ findExp (m div 2)) = m div 2 div 2 ^ findExp (m div 2)"
    by (rule zdiv_zmult2_eq) simp
  show ?case
  proof (cases "m div 2 < 2 ^ 53")
    case True
    then have "findExp (m div 2) = 0" by (simp add: findExp.simps [of "m div 2"])
    moreover have "2 ^ 52 \<le> m div 2" using "1.prems" by simp
    ultimately show ?thesis using big by (simp add: findExp.simps [of m])
  next
    case False
    then have "2 ^ 53 \<le> m div 2" by simp
    with 1 big have "2 ^ 52 \<le> m div 2 div 2 ^ findExp (m div 2)" by simp
    with split big show ?thesis by (simp add: findExp.simps [of m])
  qed
qed

lemma roundTiesToEven_overflow:
  assumes "2 ^ 1024 \<le> m"
  shows "roundTiesToEven m = Infinity"
proof -
  let ?e = "findExp m"
  let ?q = "m div 2 ^ ?e"
  let ?r = "m mod 2 ^ ?e"
  have "(2::int) ^ 53 \<le> 2 ^ 1024" by (rule power_increasing) simp_all
  with assms have m53: "2 ^ 53 \<le> m" by linarith
  have q_hi: "?q < 2 ^ 53" by (rule findExp_div_less)
  have q_lo: "2 ^ 52 \<le> ?q" using m53 by (rule findExp_div_ge)
  have r: "?r < 2 ^ ?e" by simp
  have "m = ?q * 2 ^ ?e + ?r" by (rule div_mult_mod_eq [symmetric])
  also have "\<dots> < ?q * 2 ^ ?e + 2 ^ ?e" using r by linarith
  also have "\<dots> = (?q + 1) * 2 ^ ?e" by (simp add: algebra_simps)
  also have "\<dots> \<le> 2 ^ 53 * 2 ^ ?e" using q_hi by (intro mult_right_mono) simp_all
  also have "\<dots> = 2 ^ (53 + ?e)" by (simp add: power_add)
  finally have "(2::int) ^ 1024 < 2 ^ (53 + ?e)" using assms by linarith
  then have "1024 < 53 + ?e" by (rule power_less_imp_less_exp [rotated]) simp
  then have "(2::int) ^ 1024 \<le> 2 ^ (52 + ?e)" by (intro power_increasing) simp_all
  also have "\<dots> = 2 ^ 52 * 2 ^ ?e" by (simp add: power_add)
  also have "\<dots> \<le> ?q * 2 ^ ?e" using q_lo by (intro mult_right_mono) simp_all
  finally have v: "2 ^ 1024 \<le> ?q * 2 ^ ?e" .
  have "?q * 2 ^ ?e \<le> (?q + 1) * 2 ^ ?e" by (simp add: algebra_simps)
  with v have v1: "2 ^ 1024 \<le> (?q + 1) * 2 ^ ?e" by linarith
  show ?thesis using v v1 by (simp add: roundTiesToEven_def Let_def)
qed

section \<open>The sort\<close>

lemma mset_insertBy: "mset (insertBy cmp x xs) = add_mset x (mset xs)"
  by (induction xs) auto

lemma mset_sortBy: "mset (sortBy cmp xs) = mset xs"
  by (induction xs) (auto simp: mset_insertBy)

lemma set_insertBy: "set (insertBy cmp x xs) = insert x (set xs)"
  by (induction xs) auto

lemma set_sortBy: "set (sortBy cmp xs) = set xs"
  by (induction xs) (auto simp: set_insertBy)

lemma compareEpisodes_le: "notPositive (compareEpisodes a b) = seasonNumberLe a b"
  by (auto simp: compareEpisodes_def seasonNumberLe_def notPositive_numSub
        toNumber_notPositive)

lemma seasonNumberLe_total: "seasonNumberLe a b \<or> seasonNumberLe b a"
  by (auto simp: seasonNumberLe_def)

lemma seasonNumberLe_trans:
  "seasonNumberLe a b \<Longrightarrow> seasonNumberLe b c \<Longrightarrow> seasonNumberLe a c"
  by (auto simp: seasonNumberLe_def)

lemma sorted_insertBy:
  "sorted_wrt seasonNumberLe xs \<Longrightarrow> sorted_wrt seasonNumberLe (insertBy compareEpisodes x xs)"
proof (induction xs)
  case Nil
  show ?case by simp
next
  case (Cons y ys)
  show ?case
  proof (cases "notPositive (compareEpisodes x y)")
    case True
    then have xy: "seasonNumberLe x y" by (simp add: compareEpisodes_le)
    have "\<forall>z\<in>set ys. seasonNumberLe x z"
      using Cons.prems xy seasonNumberLe_trans by auto
    with True xy Cons.prems show ?thesis by simp
  next
    case False
    then have yx: "seasonNumberLe y x"
      using seasonNumberLe_total [of x y] by (simp add: compareEpisodes_le)
    from Cons.prems have "sorted_wrt seasonNumberLe ys" by simp
    then have "sorted_wrt seasonNumberLe (insertBy compareEpisodes x ys)" by (rule Cons.IH)
    with False yx Cons.prems show ?thesis by (auto simp: set_insertBy)
  qed
qed

lemma sorted_sortBy: "sorted_wrt seasonNumberLe (sortBy compareEpisodes xs)"
  by (induction xs) (auto simp: sorted_insertBy)

text \<open>Stability: episodes with one key keep their order.\<close>

lemma filter_insertBy_other:
  "\<not> P x \<Longrightarrow> filter P (insertBy cmp x xs) = filter P xs"
  by (induction xs) auto

lemma filter_key_insertBy:
  assumes "sorted_wrt seasonNumberLe xs"
  shows "filter (\<lambda>e. seasonNumber e = seasonNumber x) (insertBy compareEpisodes x xs)
           = x # filter (\<lambda>e. seasonNumber e = seasonNumber x) xs"
  using assms
proof (induction xs)
  case Nil
  show ?case by simp
next
  case (Cons y ys)
  show ?case
  proof (cases "notPositive (compareEpisodes x y)")
    case True
    then show ?thesis by simp
  next
    case False
    then have "\<not> seasonNumberLe x y" by (simp add: compareEpisodes_le)
    then have "seasonNumber y \<noteq> seasonNumber x"
      by (auto simp: seasonNumberLe_def seasonNumber_def)
    with False Cons show ?thesis by simp
  qed
qed

lemma sortBy_stable:
  "filter (\<lambda>e. seasonNumber e = k) (sortBy compareEpisodes xs)
     = filter (\<lambda>e. seasonNumber e = k) xs"
proof (induction xs)
  case Nil
  show ?case by simp
next
  case (Cons x xs)
  show ?case
  proof (cases "seasonNumber x = k")
    case True
    have "filter (\<lambda>e. seasonNumber e = seasonNumber x) (insertBy compareEpisodes x (sortBy compareEpisodes xs))
            = x # filter (\<lambda>e. seasonNumber e = seasonNumber x) (sortBy compareEpisodes xs)"
      by (rule filter_key_insertBy) (rule sorted_sortBy)
    with True Cons show ?thesis by simp
  next
    case False
    with Cons show ?thesis by (simp add: filter_insertBy_other)
  qed
qed

section \<open>Numbering\<close>

lemma sorted_numbers_of_season:
  assumes "sorted_wrt seasonNumberLe xs"
  shows "sorted (map number (filter (\<lambda>e. season e = s) xs))"
proof -
  have "sorted_wrt seasonNumberLe (filter (\<lambda>e. season e = s) xs)"
    using assms by (rule sorted_wrt_filter)
  then have "sorted_wrt (\<lambda>a b. number a \<le> number b) (filter (\<lambda>e. season e = s) xs)"
    by (rule sorted_wrt_mono_rel [rotated]) (auto simp: seasonNumberLe_def)
  then show ?thesis by (simp add: sorted_map)
qed

lemma sorted_same_mset:
  fixes xs ys :: "int list"
  assumes "sorted xs" "sorted ys" "mset xs = mset ys"
  shows "xs = ys"
proof -
  have "sort ys = xs" using assms(3) assms(1) by (rule properties_for_sort)
  moreover have "sort ys = ys" using assms(2) by (rule sorted_sort_id)
  ultimately show ?thesis by simp
qed

lemma dense_after_sort:
  assumes run: "map number (filter (\<lambda>e. season e = s) eps) = [1..k]"
    and k: "0 \<le> k"
    and num: "season ne = s \<Longrightarrow> number ne = k + 1"
  shows "map number (filter (\<lambda>e. season e = s) (sortBy compareEpisodes (eps @ [ne])))
           = (if season ne = s then [1..k + 1] else [1..k])"
proof -
  let ?new = "sortBy compareEpisodes (eps @ [ne])"
  let ?goal = "if season ne = s then [1..k + 1] else [1..k]"
  have srt: "sorted (map number (filter (\<lambda>e. season e = s) ?new))"
    by (rule sorted_numbers_of_season) (rule sorted_sortBy)
  have "mset (filter (\<lambda>e. season e = s) ?new) = mset (filter (\<lambda>e. season e = s) (eps @ [ne]))"
    by (simp only: mset_filter mset_sortBy)
  then have "mset (map number (filter (\<lambda>e. season e = s) ?new))
          = mset (map number (filter (\<lambda>e. season e = s) (eps @ [ne])))"
    by (simp only: mset_map)
  also have "\<dots> = mset ?goal"
  proof (cases "season ne = s")
    case True
    have "[1..k + 1] = [1..k] @ [k + 1]" using k by (simp add: upto_rec2)
    with True run num show ?thesis by simp
  next
    case False
    with run show ?thesis by simp
  qed
  finally have ms: "mset (map number (filter (\<lambda>e. season e = s) ?new)) = mset ?goal" .
  have "sorted ?goal" by simp
  with srt ms show ?thesis by (intro sorted_same_mset)
qed

lemma adds_dense:
  assumes "episodes st = []" and "\<forall>a\<in>set acts. isAdd a"
  shows "map number (filter (\<lambda>e. season e = s) (episodes (performAll st acts)))
           = [1..int (length (filter (\<lambda>a. addTitle a \<noteq> [] \<and> addCode a \<noteq> [] \<and> seasonNum (addSeason a) = s) acts))]"
  using assms(2)
proof (induction acts arbitrary: s rule: rev_induct)
  case Nil
  show ?case using assms(1) by (simp add: performAll_def)
next
  case (snoc a acts)
  let ?st = "performAll st acts"
  let ?K = "\<lambda>s. int (length (filter (\<lambda>a. addTitle a \<noteq> [] \<and> addCode a \<noteq> [] \<and> seasonNum (addSeason a) = s) acts))"
  have IH: "\<And>s. map number (filter (\<lambda>e. season e = s) (episodes ?st)) = [1..?K s]"
    using snoc by simp
  from snoc.prems obtain sn t d c now where a: "a = Add sn t d c now"
    by (cases a) auto
  show ?case
  proof (cases "t = [] \<or> c = []")
    case True
    then show ?thesis using IH [of s] a
      by (auto simp: performAll_def handleAddEpisode_def)
  next
    case False
    let ?st1 = "?st\<lparr> newEpSeason := sn, newEpTitle := t, newEpDuration := d, newEpCode := c \<rparr>"
    let ?ne = "newEp now ?st1"
    have eps: "episodes (performAll st (acts @ [a]))
                 = sortBy compareEpisodes (episodes ?st @ [?ne])"
      using False a by (simp add: performAll_def handleAddEpisode_def)
    have len: "int (length (filter (\<lambda>e. season e = seasonNum sn) (episodes ?st))) = ?K (seasonNum sn)"
      using arg_cong [OF IH [of "seasonNum sn"], of length] by simp
    have sea: "season ?ne = seasonNum sn" by (simp add: newEp_def)
    have num: "season ?ne = s \<Longrightarrow> number ?ne = ?K s + 1"
      using len by (auto simp: newEp_def)
    have "map number (filter (\<lambda>e. season e = s) (sortBy compareEpisodes (episodes ?st @ [?ne])))
            = (if season ?ne = s then [1..?K s + 1] else [1..?K s])"
      using IH [of s] _ num by (rule dense_after_sort) simp
    then show ?thesis using eps sea a False by auto
  qed
qed

lemma distinct_pairs:
  assumes "\<And>s. distinct (map number (filter (\<lambda>e. season e = s) eps))"
  shows "distinct (map seasonNumber eps)"
  using assms
proof (induction eps)
  case Nil
  show ?case by simp
next
  case (Cons e eps)
  have tl: "distinct (map number (filter (\<lambda>e. season e = s) eps))" for s
    using Cons.prems [of s] by (cases "season e = s") simp_all
  have "number e \<notin> number ` {x \<in> set eps. season x = season e}"
    using Cons.prems [of "season e"] by simp
  then have "seasonNumber e \<notin> seasonNumber ` set eps"
    by (auto simp: seasonNumber_def)
  with Cons.IH [OF tl] show ?case by simp
qed

lemma perform_sorted:
  assumes "sorted_wrt seasonNumberLe (episodes st)"
  shows "sorted_wrt seasonNumberLe (episodes (perform st a))"
proof (cases a)
  case (Add s t d c now)
  with assms show ?thesis
    by (simp add: handleAddEpisode_def sorted_sortBy)
next
  case (Remove i)
  with assms show ?thesis
    by (simp add: removeEpisode_def sorted_wrt_filter)
qed

lemma performAll_sorted:
  "sorted_wrt seasonNumberLe (episodes st) \<Longrightarrow>
   sorted_wrt seasonNumberLe (episodes (performAll st acts))"
  by (induction acts rule: rev_induct) (simp_all add: performAll_def perform_sorted)

section \<open>Decimal strings\<close>

lemma digitValue_digit: "d < 10 \<Longrightarrow> digitValue (char_of (48 + d)) = Some d"
  by (simp add: digitValue_def)

lemma numeralValue_snoc:
  "numeralValue R (z @ [c]) = numeralValue R z * R + (case digitValue c of None \<Rightarrow> 0 | Some d \<Rightarrow> d)"
  by (simp add: numeralValue_def)

lemma numeralValue_toString: "numeralValue 10 (toString n) = n"
proof (induction n rule: toString.induct)
  case (1 n)
  show ?case
  proof (cases "n < 10")
    case True
    then show ?thesis
      using numeralValue_snoc [of 10 "[]" "char_of (48 + n)"]
      by (simp add: toString.simps [of n] digitValue_digit numeralValue_def)
  next
    case False
    then have "numeralValue 10 (toString (n div 10)) = n div 10" using 1 by simp
    with False show ?thesis
      by (simp add: toString.simps [of n] numeralValue_snoc digitValue_digit)
  qed
qed

lemma toString_inject:
  assumes "toString m = toString n"
  shows "m = n"
proof -
  have "m = numeralValue 10 (toString m)" by (simp only: numeralValue_toString)
  also have "\<dots> = numeralValue 10 (toString n)" by (simp only: assms)
  also have "\<dots> = n" by (simp only: numeralValue_toString)
  finally show ?thesis .
qed

lemma parseInt_1: "parseInt ''1'' = Some (Finite 1)"
  by (simp add: parseInt_def parseDigits_def isDigitOf_def digitValue_def numeralValue_def
        isWhiteSpace_def toNumber_exact)

lemma parseInt_2: "parseInt ''2'' = Some (Finite 2)"
  by (simp add: parseInt_def parseDigits_def isDigitOf_def digitValue_def numeralValue_def
        isWhiteSpace_def toNumber_exact)

lemma seasonNum_1: "seasonNum ''1'' = Finite 1"
  by (simp add: seasonNum_def parseInt_1)

lemma seasonNum_2: "seasonNum ''2'' = Finite 2"
  by (simp add: seasonNum_def parseInt_2)

lemma isDigitOf_toString: "\<forall>c\<in>set (toString n). isDigitOf 10 c"
proof (induction n rule: toString.induct)
  case (1 n)
  show ?case
  proof (cases "n < 10")
    case True
    then show ?thesis
      by (simp add: toString.simps [of n] isDigitOf_def digitValue_digit)
  next
    case False
    then have "\<forall>c\<in>set (toString (n div 10)). isDigitOf 10 c" using 1 by simp
    with False show ?thesis
      by (simp add: toString.simps [of n] isDigitOf_def digitValue_digit)
  qed
qed

lemma toString_not_Nil: "toString n \<noteq> []"
  by (simp add: toString.simps [of n])

lemma decimal_digit_plain:
  assumes "isDigitOf 10 c"
  shows "\<not> isWhiteSpace c" "c \<noteq> CHR ''-''" "c \<noteq> CHR ''+''" "c \<noteq> CHR ''x''" "c \<noteq> CHR ''X''"
  using assms
  by (auto simp: isDigitOf_def digitValue_def isWhiteSpace_def Let_def split: if_splits)

lemma parseInt_decimal:
  assumes "s \<noteq> []" and "\<forall>c\<in>set s. isDigitOf 10 c"
  shows "parseInt s = Some (toNumber (int (numeralValue 10 s)))"
proof -
  from assms(1) obtain c rest where s: "s = c # rest" by (cases s) auto
  have c: "isDigitOf 10 c" using assms(2) s by simp
  have ws: "dropWhile isWhiteSpace s = s"
    using decimal_digit_plain(1) [OF c] s by simp
  have sg: "readSign s = (1, s)"
    using decimal_digit_plain(2,3) [OF c] s by simp
  have sp: "stripPrefix s = (10, s)"
  proof (cases rest)
    case Nil
    with s show ?thesis by simp
  next
    case (Cons b r)
    then have "isDigitOf 10 b" using assms(2) s by simp
    then have "b \<noteq> CHR ''x''" "b \<noteq> CHR ''X''" by (rule decimal_digit_plain)+
    with s Cons show ?thesis by simp
  qed
  have tw: "takeWhile (isDigitOf 10) s = s"
    using assms(2) by (simp add: takeWhile_eq_all_conv)
  show ?thesis
    using assms(1) by (simp add: parseInt_def ws sg sp parseDigits_def tw)
qed

lemma parseInt_toString: "parseInt (toString n) = Some (toNumber (int n))"
  using parseInt_decimal [OF toString_not_Nil isDigitOf_toString, of n]
  by (simp add: numeralValue_toString)

lemma parseInt_toString_exact:
  "n < 2 ^ 53 \<Longrightarrow> parseInt (toString n) = Some (Finite (int n))"
proof -
  assume "n < 2 ^ 53"
  then have "int n < 2 ^ 53" by (metis of_nat_less_iff of_nat_numeral of_nat_power)
  then have "\<bar>int n\<bar> < 2 ^ 53" by simp
  then show ?thesis by (simp only: parseInt_toString toNumber_exact)
qed

lemma parseInt_minus3: "parseInt ''-3'' = Some (Finite (- 3))"
  by (simp add: parseInt_def parseDigits_def isDigitOf_def digitValue_def numeralValue_def
        isWhiteSpace_def toNumber_exact)

text \<open>
  Two inputs beyond the exact range: \<open>2^53 + 1\<close> is rounded to \<open>2^53\<close>, and a numeral
  of 310 nines is infinite.
\<close>

lemma parseInt_rounds:
  "parseInt ''9007199254740993'' = Some (Finite 9007199254740992)"
proof -
  have e: "findExp 9007199254740993 = 1"
    by (simp add: findExp.simps [of 9007199254740993] findExp.simps [of 4503599627370496])
  have "roundTiesToEven 9007199254740993 = Finite 9007199254740992"
  proof -
    have "\<not> (2::int) ^ 1024 \<le> 2 ^ 54"
      by (simp only: not_le) (rule power_strict_increasing, simp_all)
    then have "\<not> (2::int) ^ 1024 \<le> 9007199254740992" by simp
    then show ?thesis by (simp add: roundTiesToEven_def e)
  qed
  then show ?thesis
    by (simp add: parseInt_def parseDigits_def isDigitOf_def digitValue_def numeralValue_def
          isWhiteSpace_def toNumber_def)
qed

lemma numeralValue_nines: "int (numeralValue 10 (replicate n (CHR ''9''))) = 10 ^ n - 1"
proof (induction n)
  case 0
  show ?case by (simp add: numeralValue_def)
next
  case (Suc n)
  have "replicate (Suc n) (CHR ''9'') = replicate n (CHR ''9'') @ [CHR ''9'']"
    by (simp add: replicate_append_same)
  then have "int (numeralValue 10 (replicate (Suc n) (CHR ''9'')))
               = int (numeralValue 10 (replicate n (CHR ''9''))) * 10 + 9"
    by (simp add: numeralValue_snoc digitValue_def)
  with Suc show ?case by simp
qed

lemma parseInt_nines: "parseInt (replicate 310 (CHR ''9'')) = Some Infinity"
proof -
  have d: "isDigitOf 10 (CHR ''9'')" by (simp add: isDigitOf_def digitValue_def)
  have p: "parseInt (replicate 310 (CHR ''9''))
             = Some (toNumber (int (numeralValue 10 (replicate 310 (CHR ''9'')))))"
    by (rule parseInt_decimal) (simp_all add: d)
  have big: "(2::int) ^ 1024 \<le> 10 ^ 310 - 1" by simp
  then have "\<not> ((10::int) ^ 310 - 1 < 0)" 
  proof -
    have "(0::int) \<le> 2 ^ 1024" by simp
    with big show ?thesis by linarith
  qed
  with big have "toNumber (10 ^ 310 - 1) = Infinity"
    by (simp only: toNumber_def if_False roundTiesToEven_overflow)
  with p show ?thesis by (simp only: numeralValue_nines)
qed

lemma toString_eq_iff: "(toString m = toString n) = (m = n)"
  using toString_inject by blast

section \<open>Evaluating runs of the episode editor\<close>

lemmas run_simps =
  performAll_def initialState_def handleAddEpisode_def newEp_def removeEpisode_def
  seasonNum_1 seasonNum_2 compareEpisodes_le seasonNumberLe_def less_Finite
  seasonNumber_def toString_eq_iff

section \<open>Publishing\<close>

lemma publish_ignores_loading:
  "fst (handlePublish pf gw (st\<lparr> loading := l \<rparr>)) = fst (handlePublish pf gw st)"
  by (simp add: handlePublish_def Let_def movieData_def editTarget_def
        split: option.splits outcome.splits)

section \<open>Adds, then removes\<close>

lemma adds_distinct:
  assumes "episodes st = []" and "\<forall>a\<in>set acts. isAdd a"
  shows "distinct (map seasonNumber (episodes (performAll st acts)))"
proof (rule distinct_pairs)
  fix s
  have "distinct [1..k]" for k :: int by simp
  then show "distinct (map number (filter (\<lambda>e. season e = s) (episodes (performAll st acts))))"
    by (simp only: adds_dense [OF assms])
qed

lemma removes_subseq:
  "\<forall>r\<in>set rems. \<not> isAdd r \<Longrightarrow> subseq (episodes (performAll st rems)) (episodes st)"
proof (induction rems rule: rev_induct)
  case Nil
  show ?case by (simp add: performAll_def)
next
  case (snoc r rems)
  then obtain i where r: "r = Remove i" by (cases r) auto
  have "subseq (episodes (performAll st (rems @ [r]))) (episodes (performAll st rems))"
    by (simp add: r performAll_def removeEpisode_def)
  moreover have "subseq (episodes (performAll st rems)) (episodes st)"
    using snoc by simp
  ultimately show ?case by (rule subseq_order.trans)
qed

lemma distinct_subseq: "subseq xs ys \<Longrightarrow> distinct ys \<Longrightarrow> distinct xs"
  by (rule subseqs_distinctD [of xs ys]) (simp_all add: set_subseqs_eq)

section \<open>The claims\<close>

text \<open>
  Claim C1. Starting from an empty episode list, after any sequence of add operations
  with non-empty title and code (and no remove), the numbers of the episodes of each
  season \<open>s\<close>, read in list order, are exactly \<open>1, 2, \<dots>, K\<close>, where \<open>K\<close> is the number of
  adds whose season input evaluates to \<open>s\<close>.
\<close>

theorem adds_number_dense_run:
  assumes "episodes st = []"
    and "\<forall>a\<in>set acts. isAdd a \<and> addTitle a \<noteq> [] \<and> addCode a \<noteq> []"
  shows "map number (filter (\<lambda>e. season e = s) (episodes (performAll st acts)))
           = [1..int (length (filter (\<lambda>a. seasonNum (addSeason a) = s) acts))]"
proof -
  have "filter (\<lambda>a. addTitle a \<noteq> [] \<and> addCode a \<noteq> [] \<and> seasonNum (addSeason a) = s) acts
          = filter (\<lambda>a. seasonNum (addSeason a) = s) acts"
    using assms(2) by (intro filter_cong) auto
  moreover have "\<forall>a\<in>set acts. isAdd a" using assms(2) by simp
  ultimately show ?thesis using adds_dense [OF assms(1), of acts s] by simp
qed

theorem adds_number_dense_run_witness:
  "map number (filter (\<lambda>e. season e = Finite 1)
      (episodes (performAll initialState
         [Add ''2'' ''S2E1'' [] ''X'' 1700000000000, Add ''1'' ''S1E1'' [] ''Y'' 1700000060000,
          Add ''1'' ''S1E2'' ''24m'' ''Z'' 1700000120000]))) = [1..2]"
proof -
  let ?acts = "[Add ''2'' ''S2E1'' [] ''X'' 1700000000000, Add ''1'' ''S1E1'' [] ''Y'' 1700000060000,
          Add ''1'' ''S1E2'' ''24m'' ''Z'' 1700000120000]"
  have h1: "episodes initialState = []" by (simp add: initialState_def)
  have h2: "\<forall>a\<in>set ?acts. isAdd a \<and> addTitle a \<noteq> [] \<and> addCode a \<noteq> []" by simp
  have k: "int (length (filter (\<lambda>a. seasonNum (addSeason a) = Finite 1) ?acts)) = 2"
    by (simp add: seasonNum_1 seasonNum_2)
  show ?thesis using adds_number_dense_run [OF h1 h2, of "Finite 1"] k by simp
qed

text \<open>
  Claim C2. An add with non-empty title and code leaves the list sorted by season, then
  number, whatever the list was before; every list reached from the empty list by adds
  and removes is sorted; and a remove yields a subsequence of the list it is applied to
  (the remaining episodes keep their relative order), so a sorted list stays sorted.
\<close>

theorem add_sorts_remove_keeps_order:
  "(newEpTitle st \<noteq> [] \<and> newEpCode st \<noteq> [] \<longrightarrow>
      sorted_wrt seasonNumberLe (episodes (handleAddEpisode now st)))
   \<and> (episodes st0 = [] \<longrightarrow> sorted_wrt seasonNumberLe (episodes (performAll st0 acts)))
   \<and> subseq (episodes (removeEpisode i st)) (episodes st)
   \<and> (sorted_wrt seasonNumberLe (episodes st) \<longrightarrow>
        sorted_wrt seasonNumberLe (episodes (removeEpisode i st)))"
proof (intro conjI impI)
  assume "newEpTitle st \<noteq> [] \<and> newEpCode st \<noteq> []"
  then show "sorted_wrt seasonNumberLe (episodes (handleAddEpisode now st))"
    by (simp add: handleAddEpisode_def sorted_sortBy)
next
  assume "episodes st0 = []"
  then have "sorted_wrt seasonNumberLe (episodes st0)" by simp
  then show "sorted_wrt seasonNumberLe (episodes (performAll st0 acts))"
    by (rule performAll_sorted)
next
  show "subseq (episodes (removeEpisode i st)) (episodes st)"
    by (simp add: removeEpisode_def)
next
  assume "sorted_wrt seasonNumberLe (episodes st)"
  then show "sorted_wrt seasonNumberLe (episodes (removeEpisode i st))"
    by (simp add: removeEpisode_def sorted_wrt_filter)
qed

theorem add_sorts_remove_keeps_order_witness:
  "sorted_wrt seasonNumberLe (episodes (handleAddEpisode 1700000000000
      (initialState\<lparr> episodes :=
           [\<lparr> id_ep = ''7'', number = 1, season = Finite 1, title_ep = ''Pilot'',
              duration = ''N/A'', telegramCode_ep = ''ABC'' \<rparr>,
            \<lparr> id_ep = ''8'', number = 1, season = Finite 2, title_ep = ''Return'',
              duration = ''N/A'', telegramCode_ep = ''DEF'' \<rparr>],
          newEpTitle := ''Episode 2'', newEpCode := ''GHI'' \<rparr>)))
   \<and> sorted_wrt seasonNumberLe (episodes (performAll initialState
         [Add ''2'' ''S2E1'' [] ''X'' 1700000000000, Remove ''5'']))
   \<and> sorted_wrt seasonNumberLe (episodes (removeEpisode ''7''
      (initialState\<lparr> episodes :=
           [\<lparr> id_ep = ''7'', number = 1, season = Finite 1, title_ep = ''Pilot'',
              duration = ''N/A'', telegramCode_ep = ''ABC'' \<rparr>,
            \<lparr> id_ep = ''8'', number = 1, season = Finite 2, title_ep = ''Return'',
              duration = ''N/A'', telegramCode_ep = ''DEF'' \<rparr>],
          newEpTitle := ''Episode 2'', newEpCode := ''GHI'' \<rparr>)))"
proof -
  let ?st = "initialState\<lparr> episodes :=
           [\<lparr> id_ep = ''7'', number = 1, season = Finite 1, title_ep = ''Pilot'',
              duration = ''N/A'', telegramCode_ep = ''ABC'' \<rparr>,
            \<lparr> id_ep = ''8'', number = 1, season = Finite 2, title_ep = ''Return'',
              duration = ''N/A'', telegramCode_ep = ''DEF'' \<rparr>],
          newEpTitle := ''Episode 2'', newEpCode := ''GHI'' \<rparr>"
  have h1: "newEpTitle ?st \<noteq> [] \<and> newEpCode ?st \<noteq> []" by simp
  have h2: "episodes initialState = []" by (simp add: initialState_def)
  have h3: "sorted_wrt seasonNumberLe (episodes ?st)" by (simp add: seasonNumberLe_def less_Finite)
  show ?thesis
    using h1 h2 h3
      add_sorts_remove_keeps_order [of ?st 1700000000000 initialState
         "[Add ''2'' ''S2E1'' [] ''X'' 1700000000000, Remove ''5'']" "''7''"]
    by blast
qed

text \<open>
  Claim C3. \<^verbatim>\<open>handlePublish\<close> stops at its validation step (the alert naming the
  required fields, no write, state untouched) exactly when the title is empty, or the
  thumbnail is empty, or both the code and the episode list are empty.
\<close>

theorem publish_validation_iff:
  "(handlePublish pf gw st =
      ([Alert ''Title, Thumbnail and at least one Link (Code or Episode) are required''], st))
   = (title st = [] \<or> thumbnail st = [] \<or> (telegramCode st = [] \<and> episodes st = []))"
  by (auto simp: handlePublish_def Let_def split: option.splits outcome.splits)

text \<open>
  Claim C4 as stated (distinct pairs after any adds and removes) fails: after two adds
  to season 1, the removal of the first episode and one more add to season 1, two
  episodes carry the pair (1, 2).
\<close>

theorem pairs_repeat_after_remove:
  "\<not> distinct (map seasonNumber (episodes (performAll initialState
       [Add ''1'' ''Pilot'' [] ''ABC'' 1700000000000,
        Add ''1'' ''Episode 2'' [] ''DEF'' 1700000060000,
        Remove (toString 1700000000000),
        Add ''1'' ''Episode 3'' [] ''GHI'' 1700000120000])))"
  by (simp add: run_simps)

text \<open>
  Claim C4, amended. In every episode list reached from the empty list by a sequence of
  add operations followed by a sequence of remove operations (no add after a remove),
  the (season, number) pairs are pairwise distinct.
\<close>

theorem adds_then_removes_pairs_distinct:
  assumes "episodes st = []"
    and "\<forall>a\<in>set adds. isAdd a"
    and "\<forall>r\<in>set rems. \<not> isAdd r"
  shows "distinct (map seasonNumber (episodes (performAll st (adds @ rems))))"
proof -
  have run: "performAll st (adds @ rems) = performAll (performAll st adds) rems"
    by (simp add: performAll_def)
  have d: "distinct (map seasonNumber (episodes (performAll st adds)))"
    by (rule adds_distinct [OF assms(1,2)])
  have "subseq (map seasonNumber (episodes (performAll (performAll st adds) rems)))
      (map seasonNumber (episodes (performAll st adds)))"
    by (rule subseq_map) (rule removes_subseq [OF assms(3)])
  then show ?thesis
    unfolding run using d by (rule distinct_subseq)
qed

theorem adds_then_removes_pairs_distinct_witness:
  "map seasonNumber (episodes (performAll initialState
       ([Add ''1'' ''S1E1'' [] ''A'' 1700000000000, Add ''1'' ''S1E2'' [] ''B'' 1700000060000,
         Add ''2'' ''S2E1'' [] ''C'' 1700000120000, Add ''1'' ''S1E3'' [] ''D'' 1700000180000]
        @ [Remove (toString 1700000060000)])))
     = [(Finite 1, 1), (Finite 1, 3), (Finite 2, 1)]
   \<and> distinct (map seasonNumber (episodes (performAll initialState
       ([Add ''1'' ''S1E1'' [] ''A'' 1700000000000, Add ''1'' ''S1E2'' [] ''B'' 1700000060000,
         Add ''2'' ''S2E1'' [] ''C'' 1700000120000, Add ''1'' ''S1E3'' [] ''D'' 1700000180000]
        @ [Remove (toString 1700000060000)]))))"
proof -
  have h1: "episodes initialState = []" by (simp add: initialState_def)
  have h2: "\<forall>a\<in>set [Add ''1'' ''S1E1'' [] ''A'' 1700000000000,
                      Add ''1'' ''S1E2'' [] ''B'' 1700000060000,
                      Add ''2'' ''S2E1'' [] ''C'' 1700000120000,
                      Add ''1'' ''S1E3'' [] ''D'' 1700000180000]. isAdd a" by simp
  have h3: "\<forall>r\<in>set [Remove (toString 1700000060000)]. \<not> isAdd r" by simp
  have v: "map seasonNumber (episodes (performAll initialState
       ([Add ''1'' ''S1E1'' [] ''A'' 1700000000000, Add ''1'' ''S1E2'' [] ''B'' 1700000060000,
         Add ''2'' ''S2E1'' [] ''C'' 1700000120000, Add ''1'' ''S1E3'' [] ''D'' 1700000180000]
        @ [Remove (toString 1700000060000)])))
     = [(Finite 1, 1), (Finite 1, 3), (Finite 2, 1)]"
    by (simp add: run_simps)
  show ?thesis
    using v adds_then_removes_pairs_distinct [OF h1 h2 h3] by blast
qed

text \<open>
  Claim C5 as stated (the new episode gets number 3) fails on a concrete run: the new
  episode gets number 2.
\<close>

theorem scenario_renumbering_counterexample:
  "map seasonNumber (episodes (performAll initialState
       [Add ''1'' ''Pilot'' [] ''ABC'' 1700000000000,
        Add ''1'' ''Episode 2'' [] ''DEF'' 1700000060000]))
     = [(Finite 1, 1), (Finite 1, 2)]
   \<and> map id_ep (episodes (performAll initialState
       [Add ''1'' ''Pilot'' [] ''ABC'' 1700000000000,
        Add ''1'' ''Episode 2'' [] ''DEF'' 1700000060000]))
     = [toString 1700000000000, toString 1700000060000]
   \<and> map seasonNumber (episodes (performAll initialState
       [Add ''1'' ''Pilot'' [] ''ABC'' 1700000000000,
        Add ''1'' ''Episode 2'' [] ''DEF'' 1700000060000,
        Remove (toString 1700000000000),
        Add ''1'' ''Episode 3'' [] ''GHI'' 1700000120000]))
     = [(Finite 1, 2), (Finite 1, 2)]
   \<and> map seasonNumber (episodes (performAll initialState
       [Add ''1'' ''Pilot'' [] ''ABC'' 1700000000000,
        Add ''1'' ''Episode 2'' [] ''DEF'' 1700000060000,
        Remove (toString 1700000000000),
        Add ''1'' ''Episode 3'' [] ''GHI'' 1700000120000]))
     \<noteq> [(Finite 1, 2), (Finite 1, 3)]"
  by (simp add: run_simps)

text \<open>
  Claim C5, amended. Starting from an empty list, two adds to season 1 at different
  clock values give numbers 1 and 2; after the episode numbered 1 is removed, a further
  add to season 1 gets number 2 (one more than the number of season-1 episodes left),
  and the list is the old second episode followed by the new one, both with season 1
  and number 2.
\<close>

theorem scenario_add_add_remove_add:
  assumes "episodes st = []"
    and "t1 \<noteq> []" "c1 \<noteq> []" "t2 \<noteq> []" "c2 \<noteq> []" "t3 \<noteq> []" "c3 \<noteq> []"
    and "n1 \<noteq> n2"
  shows "map seasonNumber (episodes (performAll st
             [Add ''1'' t1 d1 c1 n1, Add ''1'' t2 d2 c2 n2])) = [(Finite 1, 1), (Finite 1, 2)]
     \<and> map id_ep (episodes (performAll st
             [Add ''1'' t1 d1 c1 n1, Add ''1'' t2 d2 c2 n2])) = [toString n1, toString n2]
     \<and> map seasonNumber (episodes (performAll st
             [Add ''1'' t1 d1 c1 n1, Add ''1'' t2 d2 c2 n2,
              Remove (toString n1), Add ''1'' t3 d3 c3 n3])) = [(Finite 1, 2), (Finite 1, 2)]
     \<and> map title_ep (episodes (performAll st
             [Add ''1'' t1 d1 c1 n1, Add ''1'' t2 d2 c2 n2,
              Remove (toString n1), Add ''1'' t3 d3 c3 n3])) = [t2, t3]"
proof -
  have ne: "toString n2 \<noteq> toString n1" using assms(8) toString_inject by blast
  show ?thesis
    using assms(1-7) ne
    by (simp add: performAll_def handleAddEpisode_def newEp_def removeEpisode_def
          seasonNum_1 compareEpisodes_le seasonNumberLe_def less_Finite seasonNumber_def)
qed

theorem scenario_add_add_remove_add_witness:
  "map seasonNumber (episodes (performAll initialState
       [Add ''1'' ''Pilot'' [] ''ABC'' 1700000000000,
        Add ''1'' ''Episode 2'' ''24m'' ''DEF'' 1700000060000,
        Remove (toString 1700000000000),
        Add ''1'' ''Episode 3'' [] ''GHI'' 1700000120000]))
     = [(Finite 1, 2), (Finite 1, 2)]
   \<and> map title_ep (episodes (performAll initialState
       [Add ''1'' ''Pilot'' [] ''ABC'' 1700000000000,
        Add ''1'' ''Episode 2'' ''24m'' ''DEF'' 1700000060000,
        Remove (toString 1700000000000),
        Add ''1'' ''Episode 3'' [] ''GHI'' 1700000120000]))
     = [''Episode 2'', ''Episode 3'']"
proof -
  have h1: "episodes initialState = []" by (simp add: initialState_def)
  have h: "''Pilot'' \<noteq> []" "''ABC'' \<noteq> []" "''Episode 2'' \<noteq> []" "''DEF'' \<noteq> []"
    "''Episode 3'' \<noteq> []" "''GHI'' \<noteq> []" by simp_all
  have h8: "(1700000000000::nat) \<noteq> 1700000060000" by simp
  show ?thesis
    using scenario_add_add_remove_add [OF h1 h h8, of "[]" "''24m''" "[]" 1700000120000]
    by blast
qed

text \<open>
  Claim C6 as stated (the stored season is always positive) fails: the season input
  \<^verbatim>\<open>-3\<close> is stored as \<open>-3\<close>.
\<close>

theorem negative_season_stored:
  "map season (episodes (perform initialState (Add ''-3'' ''Pilot'' [] ''ABC'' 1700000000000)))
     = [Finite (- 3)]"
  by (simp add: initialState_def handleAddEpisode_def newEp_def seasonNum_def parseInt_minus3)

text \<open>
  Claim C6, amended. A successful add stores an episode whose season is a non-zero
  Number, integer-valued or infinite: when \<^verbatim>\<open>parseInt\<close> of the season input is a
  Number other than \<^verbatim>\<open>NaN\<close> and zero (positive or negative, rounded to a double, or an
  infinity) that value is stored; when it is \<^verbatim>\<open>NaN\<close> or zero, 1 is stored. The decimal
  string of a positive integer below \<open>2^53\<close> stores that integer; a numeral of 310
  nines stores \<^verbatim>\<open>Infinity\<close>.
\<close>

theorem add_stores_nonzero_season:
  assumes "newEpTitle st \<noteq> []" and "newEpCode st \<noteq> []"
  shows "newEp now st \<in> set (episodes (handleAddEpisode now st))
     \<and> season (newEp now st) \<noteq> Finite 0
     \<and> (\<forall>v. parseInt (newEpSeason st) = Some v \<longrightarrow> v \<noteq> Finite 0 \<longrightarrow>
            season (newEp now st) = v)
     \<and> (parseInt (newEpSeason st) = None \<or> parseInt (newEpSeason st) = Some (Finite 0) \<longrightarrow>
          season (newEp now st) = Finite 1)
     \<and> (\<forall>k. 0 < k \<longrightarrow> k < 2 ^ 53 \<longrightarrow> newEpSeason st = toString k \<longrightarrow>
            season (newEp now st) = Finite (int k))
     \<and> (newEpSeason st = replicate 310 (CHR ''9'') \<longrightarrow> season (newEp now st) = Infinity)"
proof (intro conjI allI impI)
  show "newEp now st \<in> set (episodes (handleAddEpisode now st))"
    using assms by (simp add: handleAddEpisode_def set_sortBy)
  show "season (newEp now st) \<noteq> Finite 0"
    by (simp add: newEp_def seasonNum_def split: option.splits)
  show "season (newEp now st) = v" if "parseInt (newEpSeason st) = Some v" "v \<noteq> Finite 0" for v
    using that by (simp add: newEp_def seasonNum_def)
  show "season (newEp now st) = Finite 1"
    if "parseInt (newEpSeason st) = None \<or> parseInt (newEpSeason st) = Some (Finite 0)"
    using that by (auto simp: newEp_def seasonNum_def)
  show "season (newEp now st) = Finite (int k)"
    if "0 < k" "k < 2 ^ 53" "newEpSeason st = toString k" for k
    using that by (simp add: newEp_def seasonNum_def parseInt_toString_exact)
  show "season (newEp now st) = Infinity" if "newEpSeason st = replicate 310 (CHR ''9'')"
    using that by (simp only: newEp_def seasonNum_def parseInt_nines) simp
qed

theorem add_stores_nonzero_season_witness:
  "newEp 1700000000000 (initialState\<lparr> newEpSeason := ''-3'', newEpTitle := ''Pilot'', newEpCode := ''ABC'' \<rparr>)
     \<in> set (episodes (handleAddEpisode 1700000000000
                (initialState\<lparr> newEpSeason := ''-3'', newEpTitle := ''Pilot'', newEpCode := ''ABC'' \<rparr>)))
   \<and> season (newEp 1700000000000
        (initialState\<lparr> newEpSeason := ''-3'', newEpTitle := ''Pilot'', newEpCode := ''ABC'' \<rparr>))
       = Finite (- 3)
   \<and> season (newEp 1700000000000
        (initialState\<lparr> newEpSeason := ''abc'', newEpTitle := ''Pilot'', newEpCode := ''ABC'' \<rparr>))
       = Finite 1
   \<and> season (newEp 1700000000000
        (initialState\<lparr> newEpSeason := toString 12, newEpTitle := ''Pilot'', newEpCode := ''ABC'' \<rparr>))
       = Finite 12"
proof -
  let ?neg = "initialState\<lparr> newEpSeason := ''-3'', newEpTitle := ''Pilot'', newEpCode := ''ABC'' \<rparr>"
  let ?nan = "initialState\<lparr> newEpSeason := ''abc'', newEpTitle := ''Pilot'', newEpCode := ''ABC'' \<rparr>"
  let ?dec = "initialState\<lparr> newEpSeason := toString 12, newEpTitle := ''Pilot'', newEpCode := ''ABC'' \<rparr>"
  have t: "newEpTitle ?neg \<noteq> []" "newEpTitle ?nan \<noteq> []" "newEpTitle ?dec \<noteq> []" by simp_all
  have c: "newEpCode ?neg \<noteq> []" "newEpCode ?nan \<noteq> []" "newEpCode ?dec \<noteq> []" by simp_all
  have p1: "parseInt (newEpSeason ?neg) = Some (Finite (- 3))" by (simp add: parseInt_minus3)
  have p2: "parseInt (newEpSeason ?nan) = None"
    by (simp add: parseInt_def parseDigits_def isDigitOf_def digitValue_def isWhiteSpace_def)
  have p3: "newEpSeason ?dec = toString 12" by simp
  have nz: "Finite (- 3) \<noteq> Finite 0" by simp
  have k: "(0::nat) < 12" "(12::nat) < 2 ^ 53" by simp_all
  show ?thesis
    using add_stores_nonzero_season [OF t(1) c(1), of 1700000000000]
      add_stores_nonzero_season [OF t(2) c(2), of 1700000000000]
      add_stores_nonzero_season [OF t(3) c(3), of 1700000000000]
      p1 p2 p3 nz k
    by (metis of_nat_numeral)
qed

text \<open>
  Claim C7. An add with an empty title or an empty delivery code changes nothing: the
  whole state, and so the episode list and its order, is returned as it was.
\<close>

theorem add_with_empty_title_or_code_is_noop:
  "newEpTitle st = [] \<or> newEpCode st = [] \<Longrightarrow> handleAddEpisode now st = st"
  by (auto simp: handleAddEpisode_def)

theorem add_with_empty_title_or_code_is_noop_witness:
  "handleAddEpisode 1700000000000 (initialState\<lparr> newEpCode := ''ABC'' \<rparr>)
     = initialState\<lparr> newEpCode := ''ABC'' \<rparr>"
proof -
  have h: "newEpTitle (initialState\<lparr> newEpCode := ''ABC'' \<rparr>) = []
             \<or> newEpCode (initialState\<lparr> newEpCode := ''ABC'' \<rparr>) = []"
    by (simp add: initialState_def)
  show ?thesis by (rule add_with_empty_title_or_code_is_noop [OF h])
qed

text \<open>
  Claim C8. When the Firestore call of \<^verbatim>\<open>handlePublish\<close> rejects, every state cell
  other than the \<^verbatim>\<open>loading\<close> flag is as before, and publishing again from the
  resulting state does what publishing from the original state does. A failed
  validation leaves the state unchanged as well; the form is reset when validation
  passes and the call resolves.
\<close>

theorem publish_failure_keeps_session:
  "(snd (handlePublish pf Rejects st))\<lparr> loading := l \<rparr> = st\<lparr> loading := l \<rparr>
   \<and> fst (handlePublish pf gw (snd (handlePublish pf Rejects st))) = fst (handlePublish pf gw st)
   \<and> ((title st = [] \<or> thumbnail st = [] \<or> (telegramCode st = [] \<and> episodes st = [])) \<longrightarrow>
        snd (handlePublish pf gw st) = st)
   \<and> (\<not> (title st = [] \<or> thumbnail st = [] \<or> (telegramCode st = [] \<and> episodes st = [])) \<longrightarrow>
        snd (handlePublish pf Resolves st) = (resetForm st)\<lparr> loading := False \<rparr>)"
proof (intro conjI impI)
  show a: "(snd (handlePublish pf Rejects st))\<lparr> loading := l \<rparr> = st\<lparr> loading := l \<rparr>" for l
    by (simp add: handlePublish_def Let_def split: option.splits)
  have "snd (handlePublish pf Rejects st) = st\<lparr> loading := loading (snd (handlePublish pf Rejects st)) \<rparr>"
    using a [of "loading (snd (handlePublish pf Rejects st))"] by simp
  then show "fst (handlePublish pf gw (snd (handlePublish pf Rejects st))) = fst (handlePublish pf gw st)"
    using publish_ignores_loading by metis
next
  assume "title st = [] \<or> thumbnail st = [] \<or> (telegramCode st = [] \<and> episodes st = [])"
  then show "snd (handlePublish pf gw st) = st"
    by (auto simp: handlePublish_def)
next
  assume "\<not> (title st = [] \<or> thumbnail st = [] \<or> (telegramCode st = [] \<and> episodes st = []))"
  then show "snd (handlePublish pf Resolves st) = (resetForm st)\<lparr> loading := False \<rparr>"
    by (auto simp: handlePublish_def Let_def resetForm_def split: option.splits)
qed

theorem publish_failure_keeps_session_witness:
  "snd (handlePublish length Resolves
          (initialState\<lparr> title := ''Dune'', thumbnail := ''dune.jpg'', telegramCode := ''CODE123'' \<rparr>))
     = (resetForm (initialState\<lparr> title := ''Dune'', thumbnail := ''dune.jpg'', telegramCode := ''CODE123'' \<rparr>))
         \<lparr> loading := False \<rparr>
   \<and> snd (handlePublish length Resolves (initialState\<lparr> thumbnail := ''dune.jpg'' \<rparr>))
     = initialState\<lparr> thumbnail := ''dune.jpg'' \<rparr>"
proof -
  let ?ok = "initialState\<lparr> title := ''Dune'', thumbnail := ''dune.jpg'', telegramCode := ''CODE123'' \<rparr>"
  let ?bad = "initialState\<lparr> thumbnail := ''dune.jpg'' \<rparr>"
  have h1: "\<not> (title ?ok = [] \<or> thumbnail ?ok = [] \<or> (telegramCode ?ok = [] \<and> episodes ?ok = []))"
    by simp
  have h2: "title ?bad = [] \<or> thumbnail ?bad = [] \<or> (telegramCode ?bad = [] \<and> episodes ?bad = [])"
    by (simp add: initialState_def)
  show ?thesis
    using h1 h2
      publish_failure_keeps_session [where pf = length and st = ?ok and gw = Resolves]
      publish_failure_keeps_session [where pf = length and st = ?bad and gw = Resolves]
    by blast
qed

text \<open>
  Claim C9. When validation passes, \<^verbatim>\<open>handlePublish\<close> writes exactly one document; its
  \<^verbatim>\<open>episodes\<close> field is the current episode list when that list is non-empty and
  \<^verbatim>\<open>null\<close> otherwise, never the empty list.
\<close>

theorem published_episodes_field:
  "\<not> (title st = [] \<or> thumbnail st = [] \<or> (telegramCode st = [] \<and> episodes st = [])) \<Longrightarrow>
   List.map_filter writtenEpisodes (fst (handlePublish pf gw st))
     = [if episodes st = [] then None else Some (episodes st)]
   \<and> List.map_filter writtenEpisodes (fst (handlePublish pf gw st)) \<noteq> [Some []]"
  by (auto simp: handlePublish_def Let_def movieData_def List.map_filter_simps
        MovieData.defs NewMovie.defs split: option.splits outcome.splits)

theorem published_episodes_field_witness:
  "List.map_filter writtenEpisodes (fst (handlePublish length Rejects
      (initialState\<lparr> title := ''Dune'', thumbnail := ''dune.jpg'', telegramCode := ''CODE123'' \<rparr>)))
     = [None]"
proof -
  let ?ok = "initialState\<lparr> title := ''Dune'', thumbnail := ''dune.jpg'', telegramCode := ''CODE123'' \<rparr>"
  have h1: "\<not> (title ?ok = [] \<or> thumbnail ?ok = [] \<or> (telegramCode ?ok = [] \<and> episodes ?ok = []))"
    by simp
  have h2: "episodes ?ok = []" by (simp add: initialState_def)
  show ?thesis
    using published_episodes_field [OF h1, of length Rejects] h2 by simp
qed

text \<open>
  Claim C10. A successful add (non-empty title and code) clears the pending title,
  duration and code inputs and keeps the pending season input.
\<close>

theorem add_clears_inputs_keeps_season:
  "newEpTitle st \<noteq> [] \<Longrightarrow> newEpCode st \<noteq> [] \<Longrightarrow>
   newEpTitle (handleAddEpisode now st) = [] \<and>
   newEpDuration (handleAddEpisode now st) = [] \<and>
   newEpCode (handleAddEpisode now st) = [] \<and>
   newEpSeason (handleAddEpisode now st) = newEpSeason st"
  by (simp add: handleAddEpisode_def)

theorem add_clears_inputs_keeps_season_witness:
  "newEpTitle (handleAddEpisode 1700000000000
       (initialState\<lparr> newEpSeason := ''2'', newEpTitle := ''S2E1'', newEpDuration := ''24m'', newEpCode := ''X'' \<rparr>)) = []
   \<and> newEpDuration (handleAddEpisode 1700000000000
       (initialState\<lparr> newEpSeason := ''2'', newEpTitle := ''S2E1'', newEpDuration := ''24m'', newEpCode := ''X'' \<rparr>)) = []
   \<and> newEpCode (handleAddEpisode 1700000000000
       (initialState\<lparr> newEpSeason := ''2'', newEpTitle := ''S2E1'', newEpDuration := ''24m'', newEpCode := ''X'' \<rparr>)) = []
   \<and> newEpSeason (handleAddEpisode 1700000000000
       (initialState\<lparr> newEpSeason := ''2'', newEpTitle := ''S2E1'', newEpDuration := ''24m'', newEpCode := ''X'' \<rparr>)) = ''2''"
proof -
  let ?st = "initialState\<lparr> newEpSeason := ''2'', newEpTitle := ''S2E1'', newEpDuration := ''24m'', newEpCode := ''X'' \<rparr>"
  have h1: "newEpTitle ?st \<noteq> []" by simp
  have h2: "newEpCode ?st \<noteq> []" by simp
  have h3: "newEpSeason ?st = ''2''" by simp
  show ?thesis
    using add_clears_inputs_keeps_season [OF h1 h2, of 1700000000000] h3 by simp
qed

end
